theory Spec2Isabelle
  imports Main "HOL-Library.Word"
begin

unbundle bit_operations_syntax

section \<open>Go values that logger.go works with\<close>

text \<open>
  Go's \<open>int\<close> is a machine integer; it is taken at 64 bits, so \<open>+\<close> wraps around as
  \<open>c.size += size\<close> does. A string and a byte slice are lists of bytes.
\<close>

type_synonym go_int = "64 word"
type_synonym bytes = string

text \<open>An \<open>error\<close> value carries its message; \<open>nil\<close> is \<open>None\<close> of \<open>error option\<close>.\<close>

datatype error = Error string

definition fmt_Errorf :: "string \<Rightarrow> error" where
  "fmt_Errorf msg = Error msg"

text \<open>
  An \<open>io.Writer\<close> that log lines go to: the two process streams and any other
  destination, told apart by a number. A \<open>nil\<close> writer is \<open>None\<close>.
\<close>

datatype writer = Stdout | Stderr | Buffer nat

text \<open>The two values that \<open>Hijack\<close> hands over, told apart by a number.\<close>

datatype net_Conn = Conn nat
datatype bufio_ReadWriter = ReadWriter nat

type_synonym hijacked = "net_Conn option \<times> bufio_ReadWriter option \<times> error option"

section \<open>The standard library's line logger\<close>

text \<open>
  Package \<open>log\<close>: the flag constants, and a \<open>log.Logger\<close> as the three values
  \<open>log.New\<close> binds. \<open>LstdFlags\<close> is \<open>Ldate | Ltime\<close>.
\<close>

definition Ldate :: go_int where "Ldate = 1"
definition Ltime :: go_int where "Ltime = 2"
definition Lshortfile :: go_int where "Lshortfile = 16"
definition LstdFlags :: go_int where "LstdFlags = Ldate OR Ltime"

record log_Logger =
  out :: writer
  prefix :: string
  flag :: go_int

definition log_New :: "writer \<Rightarrow> string \<Rightarrow> go_int \<Rightarrow> log_Logger" where
  "log_New w p f = \<lparr>out = w, prefix = p, flag = f\<rparr>"

section \<open>Options and New\<close>

record Options =
  Prefix :: string
  DisableAutoBrackets :: bool
  RemoteAddressHeaders :: "string list"
  Out :: "writer option"
  OutputFlags :: go_int
  IgnoredRequestURIs :: "string list"

record Logger =
  Logger :: log_Logger
  opt :: Options

text \<open>The zero value \<open>Options{}\<close>: empty strings, \<open>false\<close>, \<open>nil\<close> slices and writer, 0.\<close>

definition Options_zero :: Options where
  "Options_zero = \<lparr>Prefix = [], DisableAutoBrackets = False, RemoteAddressHeaders = [],
     Out = None, OutputFlags = 0, IgnoredRequestURIs = []\<rparr>"

text \<open>\<open>New(opts ...Options)\<close>: the variadic arguments arrive as a list.\<close>

definition New :: "Options list \<Rightarrow> Logger" where
  "New opts =
     (let o' = (if length opts = 0 then Options_zero else opts ! 0);
          prefix' = (if length (Prefix o') > 0 \<and> DisableAutoBrackets o' = False
                     then ''['' @ Prefix o' @ ''] '' else Prefix o');
          output = (case Out o' of Some w \<Rightarrow> w | None \<Rightarrow> Stdout);
          flags = (if OutputFlags o' = - 1 then 0
                   else if OutputFlags o' \<noteq> 0 then OutputFlags o'
                   else LstdFlags)
      in \<lparr>Logger = log_New output prefix' flags, opt = o'\<rparr>)"

section \<open>The response writer and its observer\<close>

text \<open>
  An \<open>http.ResponseWriter\<close> is an interface value: some state of type \<open>'u\<close> and the
  methods of its dynamic type. \<open>Write\<close> returns the count and the error it likes.
  The optional interfaces \<open>http.Flusher\<close> and \<open>http.Hijacker\<close> are present
  (\<open>Some\<close>) or not, which is what the type assertions of \<open>Flush\<close> and \<open>Hijack\<close> test.
\<close>

record 'u http_ResponseWriter =
  rw_state :: 'u
  rw_WriteHeader_impl :: "go_int \<Rightarrow> 'u \<Rightarrow> 'u"
  rw_Write_impl :: "bytes \<Rightarrow> 'u \<Rightarrow> (go_int \<times> error option) \<times> 'u"
  rw_Flusher :: "('u \<Rightarrow> 'u) option"
  rw_Hijacker :: "('u \<Rightarrow> hijacked \<times> 'u) option"

definition rw_WriteHeader :: "'u http_ResponseWriter \<Rightarrow> go_int \<Rightarrow> 'u http_ResponseWriter" where
  "rw_WriteHeader w st = w\<lparr>rw_state := rw_WriteHeader_impl w st (rw_state w)\<rparr>"

definition rw_Write ::
  "'u http_ResponseWriter \<Rightarrow> bytes \<Rightarrow> (go_int \<times> error option) \<times> 'u http_ResponseWriter" where
  "rw_Write w b =
     (case rw_Write_impl w b (rw_state w) of (res, s) \<Rightarrow> (res, w\<lparr>rw_state := s\<rparr>))"

record 'u customResponseWriter =
  ResponseWriter :: "'u http_ResponseWriter"
  status :: go_int
  size' :: go_int

definition newCustomResponseWriter :: "'u http_ResponseWriter \<Rightarrow> 'u customResponseWriter" where
  "newCustomResponseWriter w = \<lparr>ResponseWriter = w, status = 200, size' = 0\<rparr>"

definition WriteHeader :: "'u customResponseWriter \<Rightarrow> go_int \<Rightarrow> 'u customResponseWriter" where
  "WriteHeader c st =
     (let c1 = c\<lparr>status := st\<rparr>
      in c1\<lparr>ResponseWriter := rw_WriteHeader (ResponseWriter c1) st\<rparr>)"

definition Write ::
  "'u customResponseWriter \<Rightarrow> bytes \<Rightarrow> (go_int \<times> error option) \<times> 'u customResponseWriter" where
  "Write c b =
     (case rw_Write (ResponseWriter c) b of
        ((sz, err), w) \<Rightarrow> ((sz, err), c\<lparr>ResponseWriter := w, size' := size' c + sz\<rparr>))"

definition Flush :: "'u customResponseWriter \<Rightarrow> 'u customResponseWriter" where
  "Flush c =
     (case rw_Flusher (ResponseWriter c) of
        Some f \<Rightarrow> c\<lparr>ResponseWriter := (ResponseWriter c)\<lparr>rw_state := f (rw_state (ResponseWriter c))\<rparr>\<rparr>
      | None \<Rightarrow> c)"

definition Hijack :: "'u customResponseWriter \<Rightarrow> hijacked \<times> 'u customResponseWriter" where
  "Hijack c =
     (case rw_Hijacker (ResponseWriter c) of
        Some hj \<Rightarrow>
          (case hj (rw_state (ResponseWriter c)) of
             (res, s) \<Rightarrow> (res, c\<lparr>ResponseWriter := (ResponseWriter c)\<lparr>rw_state := s\<rparr>\<rparr>))
      | None \<Rightarrow>
          ((None, None, Some (fmt_Errorf ''ResponseWriter does not implement the Hijacker interface'')), c))"

text \<open>
  \<open>newCustomResponseWriter\<close> followed by calls of the observer's methods, in the order
  a handler makes them, with what each call returns.
\<close>

datatype call = CallWriteHeader go_int | CallWrite bytes | CallFlush | CallHijack

datatype ret = RetUnit | RetWrite go_int "error option" | RetHijack hijacked

fun do_call :: "'u customResponseWriter \<Rightarrow> call \<Rightarrow> ret \<times> 'u customResponseWriter" where
  "do_call c (CallWriteHeader st) = (RetUnit, WriteHeader c st)"
| "do_call c (CallWrite b) = (case Write c b of ((n, err), c') \<Rightarrow> (RetWrite n err, c'))"
| "do_call c CallFlush = (RetUnit, Flush c)"
| "do_call c CallHijack = (case Hijack c of (h, c') \<Rightarrow> (RetHijack h, c'))"

fun run_calls :: "'u customResponseWriter \<Rightarrow> call list \<Rightarrow> ret list \<times> 'u customResponseWriter" where
  "run_calls c [] = ([], c)"
| "run_calls c (x # xs) =
     (case do_call c x of (r, c') \<Rightarrow>
        (case run_calls c' xs of (rs, c'') \<Rightarrow> (r # rs, c'')))"

text \<open>The status codes passed to \<open>WriteHeader\<close>, and the counts \<open>Write\<close> returned.\<close>

fun codes :: "call list \<Rightarrow> go_int list" where
  "codes [] = []"
| "codes (CallWriteHeader st # xs) = st # codes xs"
| "codes (_ # xs) = codes xs"

fun counts :: "ret list \<Rightarrow> go_int list" where
  "counts [] = []"
| "counts (RetWrite n err # rs) = n # counts rs"
| "counts (_ # rs) = counts rs"

text \<open>
  A run of \<open>Write\<close> calls alone, on the observer and on a bare
  \<open>http.ResponseWriter\<close>, each giving the results in order and the final state.
\<close>

fun Writes ::
  "'u customResponseWriter \<Rightarrow> bytes list \<Rightarrow> (go_int \<times> error option) list \<times> 'u customResponseWriter" where
  "Writes c [] = ([], c)"
| "Writes c (b # bs) =
     (case Write c b of (r, c') \<Rightarrow> (case Writes c' bs of (rs, c'') \<Rightarrow> (r # rs, c'')))"

fun rw_Writes ::
  "'u http_ResponseWriter \<Rightarrow> bytes list \<Rightarrow> (go_int \<times> error option) list \<times> 'u http_ResponseWriter" where
  "rw_Writes w [] = ([], w)"
| "rw_Writes w (b # bs) =
     (case rw_Write w b of (r, w') \<Rightarrow> (case rw_Writes w' bs of (rs, w'') \<Rightarrow> (r # rs, w'')))"

section \<open>Formatting\<close>

text \<open>
  Package \<open>fmt\<close>, as far as \<open>Handler\<close> uses it: the verbs \<open>%s\<close> and \<open>%d\<close> (and
  \<open>%%\<close>) without flags, over operands that are strings, ints, and values with a
  \<open>String\<close> method (given by the text that method returns). \<open>None\<close> is a format or
  an operand list outside this fragment.
\<close>

datatype arg = ArgString string | ArgInt go_int | ArgStringer string

fun digits :: "nat \<Rightarrow> string" where
  "digits n = (if n < 10 then [''0123456789'' ! n]
               else digits (n div 10) @ [''0123456789'' ! (n mod 10)])"

definition itoa :: "int \<Rightarrow> string" where
  "itoa i = (if i < 0 then CHR ''-'' # digits (nat (- i)) else digits (nat i))"

definition fmt_verb :: "char \<Rightarrow> arg list \<Rightarrow> (string \<times> arg list) option" where
  "fmt_verb v a =
     (if v = CHR ''s'' then
        (case a of ArgString s # rest \<Rightarrow> Some (s, rest)
                 | ArgStringer s # rest \<Rightarrow> Some (s, rest)
                 | _ \<Rightarrow> None)
      else if v = CHR ''d'' then
        (case a of ArgInt n # rest \<Rightarrow> Some (itoa (sint n), rest) | _ \<Rightarrow> None)
      else if v = CHR ''%'' then Some (''%'', a)
      else None)"

fun Sprintf :: "string \<Rightarrow> arg list \<Rightarrow> string option" where
  "Sprintf [] a = (if a = [] then Some [] else None)"
| "Sprintf [c] a = (if c = CHR ''%'' then None else map_option ((#) c) (Sprintf [] a))"
| "Sprintf (c # v # cs) a =
     (if c = CHR ''%'' then
        (case fmt_verb v a of
           Some (s, rest) \<Rightarrow> map_option ((@) s) (Sprintf cs rest)
         | None \<Rightarrow> None)
      else map_option ((#) c) (Sprintf (v # cs) a))"

text \<open>
  \<open>(*log.Logger).Printf\<close> writes one line to the logger's writer: the header its
  prefix and flags ask for, then \<open>Sprintf\<close> of the format and operands. The sink is
  the list of these calls in order; \<open>line_body\<close> is the message of one of them.
\<close>

record printf_call =
  pc_logger :: log_Logger
  pc_format :: string
  pc_v :: "arg list"

definition Printf :: "log_Logger \<Rightarrow> string \<Rightarrow> arg list \<Rightarrow> printf_call list \<Rightarrow> printf_call list" where
  "Printf lg format v sink = sink @ [\<lparr>pc_logger = lg, pc_format = format, pc_v = v\<rparr>]"

definition line_body :: "printf_call \<Rightarrow> string option" where
  "line_body p = Sprintf (pc_format p) (pc_v p)"

section \<open>Handler\<close>

text \<open>
  The fields of \<open>*http.Request\<close> that \<open>Handler\<close> reads; \<open>Header_Get\<close> is
  \<open>r.Header.Get\<close>, the lookup of a header by name, \<open>""\<close> when there is none.
\<close>

record http_Request =
  Method :: string
  RequestURI :: string
  Proto :: string
  RemoteAddr :: string
  Header_Get :: "string \<Rightarrow> string"

text \<open>The first loop of \<open>Handler\<close>: \<open>True\<close> is its \<open>return\<close>.\<close>

fun ignored :: "string list \<Rightarrow> http_Request \<Rightarrow> bool" where
  "ignored [] r = False"
| "ignored (ignoredURI # rest) r = (if ignoredURI = RequestURI r then True else ignored rest r)"

text \<open>The second loop: \<open>addr\<close> is overwritten at the first non-empty value, then \<open>break\<close>.\<close>

fun remote_addr :: "string list \<Rightarrow> http_Request \<Rightarrow> string \<Rightarrow> string" where
  "remote_addr [] r addr = addr"
| "remote_addr (headerKey # rest) r addr =
     (let val = Header_Get r headerKey
      in if length val > 0 then val else remote_addr rest r addr)"

text \<open>
  The handler that \<open>l.Handler(next)\<close> returns, applied to \<open>w\<close> and \<open>r\<close>. \<open>next\<close> is
  \<open>next.ServeHTTP\<close> as a call that returns: what it leaves of the observer it was
  given. It reads the request and leaves it as it is, which is what \<open>http.Handler\<close>
  asks of a handler. \<open>Handler\<close> defers nothing, so none of what follows the call runs
  when the call does not return. \<open>since\<close> is \<open>time.Since(start)\<close>, read from the
  clock when the line is formatted. The result is the response writer and the sink
  afterwards.
\<close>

definition Handler ::
  "Logger \<Rightarrow> ('u customResponseWriter \<Rightarrow> http_Request \<Rightarrow> 'u customResponseWriter) \<Rightarrow> string \<Rightarrow>
   'u http_ResponseWriter \<Rightarrow> http_Request \<Rightarrow> printf_call list \<Rightarrow>
   'u http_ResponseWriter \<times> printf_call list" where
  \<open>Handler l next since w r sink =
     (let crw = next (newCustomResponseWriter w) r
      in if ignored (IgnoredRequestURIs (opt l)) r then (ResponseWriter crw, sink)
         else
           (let addr = remote_addr (RemoteAddressHeaders (opt l)) r (RemoteAddr r)
            in (ResponseWriter crw,
                Printf (Logger l) ''(%s) "%s %s %s" %d %d %s''
                  [ArgString addr, ArgString (Method r), ArgString (RequestURI r),
                   ArgString (Proto r), ArgInt (status crw), ArgInt (size' crw),
                   ArgStringer since] sink)))\<close>

text \<open>A handler that makes the calls \<open>cs\<close> on the writer it is given, whatever they return.\<close>

definition handler_of :: "call list \<Rightarrow> 'u customResponseWriter \<Rightarrow> http_Request \<Rightarrow> 'u customResponseWriter" where
  "handler_of cs c r = snd (run_calls c cs)"

section \<open>A response writer to run the code on\<close>

text \<open>
  A writer that records what it is sent, in the manner of
  \<open>httptest.ResponseRecorder\<close>: the first status code counts and later ones are
  dropped, a write or a flush before any code sends 200, every write is accepted
  whole; it is an \<open>http.Flusher\<close> and no \<open>http.Hijacker\<close>.
\<close>

record ResponseRecorder =
  Code :: go_int
  Body :: string
  Flushed :: bool
  wroteHeader :: bool

definition recorder_WriteHeader :: "go_int \<Rightarrow> ResponseRecorder \<Rightarrow> ResponseRecorder" where
  "recorder_WriteHeader code rw =
     (if wroteHeader rw then rw else rw\<lparr>Code := code, wroteHeader := True\<rparr>)"

definition recorder_Write ::
  "bytes \<Rightarrow> ResponseRecorder \<Rightarrow> (go_int \<times> error option) \<times> ResponseRecorder" where
  "recorder_Write buf rw =
     (let rw1 = (if \<not> wroteHeader rw then recorder_WriteHeader 200 rw else rw)
      in ((word_of_nat (length buf), None), rw1\<lparr>Body := Body rw1 @ buf\<rparr>))"

definition recorder_Flush :: "ResponseRecorder \<Rightarrow> ResponseRecorder" where
  "recorder_Flush rw =
     (let rw1 = (if \<not> wroteHeader rw then recorder_WriteHeader 200 rw else rw)
      in rw1\<lparr>Flushed := True\<rparr>)"

definition recorder :: "ResponseRecorder http_ResponseWriter" where
  "recorder = \<lparr>rw_state = \<lparr>Code = 200, Body = [], Flushed = False, wroteHeader = False\<rparr>,
     rw_WriteHeader_impl = recorder_WriteHeader,
     rw_Write_impl = recorder_Write,
     rw_Flusher = Some recorder_Flush,
     rw_Hijacker = None\<rparr>"

text \<open>A writer that takes two bytes of each write at most, and says so; it can be hijacked.\<close>

definition short_writer :: "string http_ResponseWriter" where
  "short_writer = \<lparr>rw_state = [],
     rw_WriteHeader_impl = (\<lambda>st s. s),
     rw_Write_impl = (\<lambda>b s. ((word_of_nat (min 2 (length b)),
                               if 2 < length b then Some (Error ''short write'') else None),
                              s @ take 2 b)),
     rw_Flusher = None,
     rw_Hijacker = Some (\<lambda>s. ((Some (Conn 1), Some (ReadWriter 1), None), s))\<rparr>"

text \<open>Requests to run the code on: \<open>/foo\<close> behind a proxy, and the same with a query.\<close>

definition proxy_header :: "string \<Rightarrow> string" where
  "proxy_header key = (if key = ''X-Forwarded-Proto'' then ''12.34.56.78'' else [])"

definition req_foo :: http_Request where
  "req_foo = \<lparr>Method = ''GET'', RequestURI = ''/foo'', Proto = ''HTTP/1.1'',
     RemoteAddr = ''8.8.4.4'', Header_Get = proxy_header\<rparr>"

definition req_foo_query :: http_Request where
  "req_foo_query = req_foo\<lparr>RequestURI := ''/foo?q=1''\<rparr>"

text \<open>Loggers to run the code on.\<close>

definition logger_ignoring :: Logger where
  "logger_ignoring = New [Options_zero\<lparr>IgnoredRequestURIs := [''/favicon.ico'', ''/foo'']\<rparr>]"

definition logger_proxied :: Logger where
  "logger_proxied =
     New [Options_zero\<lparr>RemoteAddressHeaders := [''X-Real-IP'', ''X-Forwarded-Proto'', ''Via'']\<rparr>]"

definition logger_fallback :: Logger where
  "logger_fallback = New [Options_zero\<lparr>RemoteAddressHeaders := [''X-Real-IP'']\<rparr>]"

section \<open>The two loops of Handler\<close>

lemma ignored_iff: "ignored xs r \<longleftrightarrow> RequestURI r \<in> set xs"
  by (induction xs) auto

lemma remote_addr_none:
  "\<forall>k\<in>set hs. Header_Get r k = [] \<Longrightarrow> remote_addr hs r a = a"
  by (induction hs) (simp_all add: Let_def)

lemma remote_addr_first:
  "\<forall>k'\<in>set pre. Header_Get r k' = [] \<Longrightarrow> Header_Get r k \<noteq> [] \<Longrightarrow>
   remote_addr (pre @ k # post) r a = Header_Get r k"
  by (induction pre) (simp_all add: Let_def)

text \<open>What \<open>Handler\<close> returns on either side of the first loop.\<close>

lemma Handler_ignored:
  "RequestURI r \<in> set (IgnoredRequestURIs (opt l)) \<Longrightarrow>
   Handler l next since w r sink = (ResponseWriter (next (newCustomResponseWriter w) r), sink)"
  by (simp add: Handler_def ignored_iff Let_def)

lemma Handler_not_ignored:
  "RequestURI r \<notin> set (IgnoredRequestURIs (opt l)) \<Longrightarrow>
   Handler l next since w r sink =
     (ResponseWriter (next (newCustomResponseWriter w) r),
      sink @ [\<lparr>pc_logger = Logger l, pc_format = ''(%s) \"%s %s %s\" %d %d %s'',
               pc_v = [ArgString (remote_addr (RemoteAddressHeaders (opt l)) r (RemoteAddr r)),
                       ArgString (Method r), ArgString (RequestURI r), ArgString (Proto r),
                       ArgInt (status (next (newCustomResponseWriter w) r)),
                       ArgInt (size' (next (newCustomResponseWriter w) r)),
                       ArgStringer since]\<rparr>])"
  by (simp add: Handler_def ignored_iff Let_def Printf_def)

section \<open>The format of the line\<close>

lemma Sprintf_line:
  "Sprintf ''(%s) \"%s %s %s\" %d %d %s''
     [ArgString addr, ArgString m, ArgString u, ArgString p, ArgInt st, ArgInt sz, ArgStringer d] =
   Some (''('' @ addr @ '') \"'' @ m @ '' '' @ u @ '' '' @ p @ ''\" '' @
         itoa (sint st) @ '' '' @ itoa (sint sz) @ '' '' @ d)"
  by (simp add: fmt_verb_def)

section \<open>Calls on the observer\<close>

lemma status_do_call:
  "status (snd (do_call c x)) = (case x of CallWriteHeader st \<Rightarrow> st | _ \<Rightarrow> status c)"
  by (cases x)
    (simp_all add: WriteHeader_def Write_def Flush_def Hijack_def Let_def
       split: prod.splits option.splits)

lemma status_run_calls:
  "status (snd (run_calls c cs)) = (if codes cs = [] then status c else last (codes cs))"
proof (induction cs arbitrary: c)
  case Nil
  show ?case by simp
next
  case (Cons x xs)
  obtain r c' where dc: "do_call c x = (r, c')" by (cases "do_call c x")
  obtain rs c'' where rc: "run_calls c' xs = (rs, c'')" by (cases "run_calls c' xs")
  have st: "status c' = (case x of CallWriteHeader st \<Rightarrow> st | _ \<Rightarrow> status c)"
    using status_do_call [of c x] dc by simp
  have "status (snd (run_calls c (x # xs))) = status (snd (run_calls c' xs))"
    using dc rc by simp
  also have "\<dots> = (if codes xs = [] then status c' else last (codes xs))"
    by (rule Cons.IH)
  also have "\<dots> = (if codes (x # xs) = [] then status c else last (codes (x # xs)))"
    using st by (cases x) simp_all
  finally show ?case .
qed

lemma size_do_call:
  "size' (snd (do_call c x)) = size' c + sum_list (counts [fst (do_call c x)])"
  by (cases x)
    (simp_all add: WriteHeader_def Write_def Flush_def Hijack_def Let_def
       split: prod.splits option.splits)

lemma counts_Cons: "counts (r # rs) = counts [r] @ counts rs"
  by (cases r) simp_all

text \<open>Whatever else is called in between, only \<open>Write\<close> moves \<open>size\<close>.\<close>

lemma size_run_calls:
  "size' (snd (run_calls c cs)) = size' c + sum_list (counts (fst (run_calls c cs)))"
proof (induction cs arbitrary: c)
  case Nil
  show ?case by simp
next
  case (Cons x xs)
  obtain r c' where dc: "do_call c x = (r, c')" by (cases "do_call c x")
  obtain rs c'' where rc: "run_calls c' xs = (rs, c'')" by (cases "run_calls c' xs")
  have "size' c'' = size' c' + sum_list (counts rs)"
    using Cons.IH [of c'] rc by simp
  moreover have "size' c' = size' c + sum_list (counts [r])"
    using size_do_call [of c x] dc by simp
  ultimately show ?case
    using dc rc counts_Cons [of r rs] by (simp add: add.assoc)
qed

lemma Write_step:
  "Write c b = (fst (rw_Write (ResponseWriter c) b),
                c\<lparr>ResponseWriter := snd (rw_Write (ResponseWriter c) b),
                  size' := size' c + fst (fst (rw_Write (ResponseWriter c) b))\<rparr>)"
  by (simp add: Write_def split: prod.splits)

lemma Writes_sim:
  "fst (Writes c bs) = fst (rw_Writes (ResponseWriter c) bs) \<and>
   ResponseWriter (snd (Writes c bs)) = snd (rw_Writes (ResponseWriter c) bs) \<and>
   size' (snd (Writes c bs)) =
     size' c + sum_list (map fst (fst (rw_Writes (ResponseWriter c) bs))) \<and>
   status (snd (Writes c bs)) = status c"
proof (induction bs arbitrary: c)
  case Nil
  show ?case by simp
next
  case (Cons b bs)
  let ?c' = "snd (Write c b)"
  have w: "ResponseWriter ?c' = snd (rw_Write (ResponseWriter c) b)"
    and s: "size' ?c' = size' c + fst (fst (rw_Write (ResponseWriter c) b))"
    and t: "status ?c' = status c"
    and f: "fst (Write c b) = fst (rw_Write (ResponseWriter c) b)"
    by (simp_all add: Write_step)
  show ?case
    using Cons.IH [of ?c'] w s t f
    by (simp add: split_beta add.assoc)
qed

section \<open>Sums of machine integers\<close>

lemma signed_take_bit_add_right:
  "signed_take_bit n (k + signed_take_bit n l) = signed_take_bit n (k + l)" for k l :: int
proof -
  have "signed_take_bit n (k + signed_take_bit n l) =
        signed_take_bit n (signed_take_bit n k + signed_take_bit n (signed_take_bit n l))"
    by (simp only: signed_take_bit_add)
  also have "\<dots> = signed_take_bit n (signed_take_bit n k + signed_take_bit n l)"
    by (simp only: signed_take_bit_signed_take_bit)
  also have "\<dots> = signed_take_bit n (k + l)"
    by (simp only: signed_take_bit_add)
  finally show ?thesis .
qed

lemma sint_sum_list:
  "sint (sum_list xs) = signed_take_bit 63 (sum_list (map sint xs))" for xs :: "go_int list"
proof (induction xs)
  case Nil
  show ?case by simp
next
  case (Cons x xs)
  have "sint (x + sum_list xs) = signed_take_bit 63 (sint x + sint (sum_list xs))"
    by (simp add: sint_word_ariths)
  also have "\<dots> = signed_take_bit 63 (sint x + sum_list (map sint xs))"
    unfolding Cons.IH by (rule signed_take_bit_add_right)
  finally show ?case by simp
qed

lemma sint_sum_list_exact:
  fixes xs :: "go_int list"
  assumes "- (2 ^ 63) \<le> sum_list (map sint xs)" and "sum_list (map sint xs) < 2 ^ 63"
  shows "sint (sum_list xs) = sum_list (map sint xs)"
  unfolding sint_sum_list using assms by (rule signed_take_bit_int_eq_self)

section \<open>New: prefix, flags, and which argument counts\<close>

text \<open>
  C5. Whatever \<open>Options\<close> value comes first in the call of \<open>New\<close>, the flags given
  to \<open>log.New\<close> are: 0 when \<open>OutputFlags\<close> is -1; \<open>log.LstdFlags\<close> (date and time)
  when \<open>OutputFlags\<close> is 0, as it also is when no \<open>Options\<close> is passed; and
  \<open>OutputFlags\<close> itself for every other value.
\<close>

theorem New_flags:
  "(OutputFlags o' = - 1 \<longrightarrow> flag (Logger (New (o' # rest))) = 0) \<and>
   (OutputFlags o' = 0 \<longrightarrow> flag (Logger (New (o' # rest))) = LstdFlags) \<and>
   (OutputFlags o' \<noteq> - 1 \<and> OutputFlags o' \<noteq> 0 \<longrightarrow>
      flag (Logger (New (o' # rest))) = OutputFlags o') \<and>
   flag (Logger (New [])) = LstdFlags \<and> LstdFlags = Ldate OR Ltime"
  by (simp add: New_def log_New_def Options_zero_def LstdFlags_def)

theorem New_flags_witness:
  "flag (Logger (New [Options_zero\<lparr>OutputFlags := - 1\<rparr>])) = 0 \<and>
   flag (Logger (New [Options_zero])) = 3 \<and>
   flag (Logger (New [Options_zero\<lparr>OutputFlags := Lshortfile\<rparr>])) = 16"
  using New_flags [of "Options_zero\<lparr>OutputFlags := - 1\<rparr>" "[]"]
    New_flags [of Options_zero "[]"]
    New_flags [of "Options_zero\<lparr>OutputFlags := Lshortfile\<rparr>" "[]"]
  by (simp add: Options_zero_def LstdFlags_def Ldate_def Ltime_def Lshortfile_def)

text \<open>
  C6. The prefix given to \<open>log.New\<close> is \<open>"[" + Prefix + "] "\<close> when \<open>Prefix\<close> is not
  empty and \<open>DisableAutoBrackets\<close> is false; it is empty when \<open>Prefix\<close> is empty,
  whatever \<open>DisableAutoBrackets\<close> is; and it is \<open>Prefix\<close> as given when
  \<open>DisableAutoBrackets\<close> is true.
\<close>

theorem New_prefix:
  "(Prefix o' \<noteq> [] \<and> \<not> DisableAutoBrackets o' \<longrightarrow>
      prefix (Logger (New (o' # rest))) = ''['' @ Prefix o' @ ''] '') \<and>
   (Prefix o' = [] \<longrightarrow> prefix (Logger (New (o' # rest))) = []) \<and>
   (DisableAutoBrackets o' \<longrightarrow> prefix (Logger (New (o' # rest))) = Prefix o')"
  by (simp add: New_def log_New_def)

theorem New_prefix_witness:
  "prefix (Logger (New [Options_zero\<lparr>Prefix := ''testapp_-_yo''\<rparr>])) = ''[testapp_-_yo] '' \<and>
   prefix (Logger (New [Options_zero\<lparr>DisableAutoBrackets := True\<rparr>])) = [] \<and>
   prefix (Logger (New [Options_zero\<lparr>Prefix := ''testapp_-_yo2()'', DisableAutoBrackets := True\<rparr>])) =
     ''testapp_-_yo2()''"
  using New_prefix [of "Options_zero\<lparr>Prefix := ''testapp_-_yo''\<rparr>" "[]"]
    New_prefix [of "Options_zero\<lparr>DisableAutoBrackets := True\<rparr>" "[]"]
    New_prefix [of "Options_zero\<lparr>Prefix := ''testapp_-_yo2()'', DisableAutoBrackets := True\<rparr>" "[]"]
  by (simp add: Options_zero_def)

text \<open>
  C8. Called with two or more \<open>Options\<close>, \<open>New\<close> builds the \<open>Logger\<close> it builds from
  the first one alone: the line logger (writer, prefix, flags) and the kept options
  (ignore list, address headers) are the same, and \<open>New\<close> has no error to return.
\<close>

theorem New_first_only: "New (o1 # o2 # rest) = New [o1]"
  by (simp add: New_def)

theorem New_first_only_witness:
  "out (Logger (New [Options_zero\<lparr>Out := Some (Buffer 0)\<rparr>,
                     Options_zero\<lparr>Out := Some Stderr, OutputFlags := - 1\<rparr>])) = Buffer 0 \<and>
   flag (Logger (New [Options_zero\<lparr>Out := Some (Buffer 0)\<rparr>,
                      Options_zero\<lparr>Out := Some Stderr, OutputFlags := - 1\<rparr>])) = 3"
proof -
  have one: "New [Options_zero\<lparr>Out := Some (Buffer 0)\<rparr>] =
    \<lparr>Logger = \<lparr>out = Buffer 0, prefix = [], flag = 3\<rparr>,
     opt = Options_zero\<lparr>Out := Some (Buffer 0)\<rparr>\<rparr>"
    by (simp add: New_def log_New_def Options_zero_def LstdFlags_def Ldate_def Ltime_def)
  show ?thesis
    using New_first_only [of "Options_zero\<lparr>Out := Some (Buffer 0)\<rparr>"
        "Options_zero\<lparr>Out := Some Stderr, OutputFlags := - 1\<rparr>" "[]"] one
    by simp
qed

text \<open>
  C10. \<open>New()\<close> builds the same \<open>Logger\<close> as \<open>New(Options{})\<close>: no prefix, standard
  output as the writer, \<open>log.LstdFlags\<close>, no address headers and nothing ignored.
\<close>

theorem New_no_args:
  "New [] = New [Options_zero] \<and>
   prefix (Logger (New [])) = [] \<and> out (Logger (New [])) = Stdout \<and>
   flag (Logger (New [])) = LstdFlags \<and>
   RemoteAddressHeaders (opt (New [])) = [] \<and> IgnoredRequestURIs (opt (New [])) = []"
  by (simp add: New_def log_New_def Options_zero_def)

section \<open>Hijack\<close>

text \<open>
  C7. When the wrapped writer is no \<open>http.Hijacker\<close>, \<open>Hijack\<close> returns \<open>nil\<close>, \<open>nil\<close>
  and an error with a message that says so, and leaves the observer as it was. When
  it is one, \<open>Hijack\<close> returns what the wrapped writer's \<open>Hijack\<close> returns and changes
  nothing but the wrapped writer's state. The other method that returns an error,
  \<open>Write\<close>, returns the wrapped writer's: the error of \<open>Hijack\<close> is the only one made
  here.
\<close>

theorem Hijack_capability:
  "(rw_Hijacker (ResponseWriter c) = None \<longrightarrow>
      Hijack c = ((None, None,
        Some (Error ''ResponseWriter does not implement the Hijacker interface'')), c)) \<and>
   (\<forall>hj. rw_Hijacker (ResponseWriter c) = Some hj \<longrightarrow>
      fst (Hijack c) = fst (hj (rw_state (ResponseWriter c))) \<and>
      snd (Hijack c) =
        c\<lparr>ResponseWriter := (ResponseWriter c)\<lparr>rw_state := snd (hj (rw_state (ResponseWriter c)))\<rparr>\<rparr>) \<and>
   snd (fst (Write c b)) = snd (fst (rw_Write (ResponseWriter c) b))"
  by (simp add: Hijack_def fmt_Errorf_def Write_def split: prod.splits)

theorem Hijack_capability_witness:
  "fst (Hijack (newCustomResponseWriter recorder)) =
     (None, None, Some (Error ''ResponseWriter does not implement the Hijacker interface'')) \<and>
   fst (Hijack (newCustomResponseWriter short_writer)) = (Some (Conn 1), Some (ReadWriter 1), None)"
  using Hijack_capability [of "newCustomResponseWriter recorder"]
    Hijack_capability [of "newCustomResponseWriter short_writer"]
  by (simp add: newCustomResponseWriter_def recorder_def short_writer_def)

section \<open>Handler: which requests are logged, and with what\<close>

text \<open>
  C1. For every request the wrapped handler has handled: when \<open>r.RequestURI\<close> is equal,
  as a string, to an entry of \<open>IgnoredRequestURIs\<close>, the sink is left as it was (no line);
  otherwise the sink has exactly one line more. Only equality of the whole raw
  request target counts: no prefix, no pattern, no parsed path.
\<close>

theorem Handler_lines:
  "(RequestURI r \<in> set (IgnoredRequestURIs (opt l)) \<longrightarrow>
      snd (Handler l next since w r sink) = sink) \<and>
   (RequestURI r \<notin> set (IgnoredRequestURIs (opt l)) \<longrightarrow>
      (\<exists>p. snd (Handler l next since w r sink) = sink @ [p]))"
  by (simp add: Handler_ignored Handler_not_ignored)

lemma logger_ignoring_opt:
  "IgnoredRequestURIs (opt logger_ignoring) = [''/favicon.ico'', ''/foo'']"
  by (simp add: logger_ignoring_def New_def Options_zero_def)

text \<open>With \<open>/foo\<close> ignored, \<open>/foo\<close> is not logged and \<open>/foo?q=1\<close> is.\<close>

theorem Handler_lines_witness:
  "snd (Handler logger_ignoring (handler_of [CallWrite ''bar'']) ''1ms'' recorder req_foo []) = [] \<and>
   length (snd (Handler logger_ignoring (handler_of [CallWrite ''bar'']) ''1ms'' recorder
     req_foo_query [])) = 1"
proof -
  have a: "RequestURI req_foo \<in> set (IgnoredRequestURIs (opt logger_ignoring))"
    by (simp add: logger_ignoring_opt req_foo_def)
  have b: "RequestURI req_foo_query \<notin> set (IgnoredRequestURIs (opt logger_ignoring))"
    by (simp add: logger_ignoring_opt req_foo_query_def req_foo_def)
  show ?thesis
    using a b
      Handler_lines [of req_foo logger_ignoring "handler_of [CallWrite ''bar'']" "''1ms''"
        recorder "[]"]
      Handler_lines [of req_foo_query logger_ignoring "handler_of [CallWrite ''bar'']" "''1ms''"
        recorder "[]"]
    by auto
qed

text \<open>
  C9. For every request that is not ignored, the one line added is printed by the
  logger's \<open>log.Logger\<close> and its message is
  \<open>(address) "METHOD REQUEST-URI PROTOCOL" status size elapsed\<close>: the address that the
  second loop settles on, the request's \<open>Method\<close>, \<open>RequestURI\<close> and \<open>Proto\<close> as they
  are, the observer's \<open>status\<close> and \<open>size\<close> in decimal after \<open>next\<close> has returned, and
  the elapsed time.
\<close>

theorem Handler_line_shape:
  assumes "RequestURI r \<notin> set (IgnoredRequestURIs (opt l))"
  shows "\<exists>p. snd (Handler l next since w r sink) = sink @ [p] \<and>
     pc_logger p = Logger l \<and>
     line_body p =
       Some (''('' @ remote_addr (RemoteAddressHeaders (opt l)) r (RemoteAddr r) @ '') \"'' @
             Method r @ '' '' @ RequestURI r @ '' '' @ Proto r @ ''\" '' @
             itoa (sint (status (next (newCustomResponseWriter w) r))) @ '' '' @
             itoa (sint (size' (next (newCustomResponseWriter w) r))) @ '' '' @ since)"
  using assms
  by (simp add: Handler_not_ignored line_body_def Sprintf_line del: Sprintf.simps)

theorem Handler_line_shape_witness:
  "map line_body (snd (Handler logger_proxied (handler_of [CallWrite ''bar'']) ''1ms'' recorder
     req_foo [])) = [Some ''(12.34.56.78) \"GET /foo HTTP/1.1\" 200 3 1ms'']"
proof -
  have a: "RequestURI req_foo \<notin> set (IgnoredRequestURIs (opt logger_proxied))"
    by (simp add: logger_proxied_def New_def Options_zero_def)
  have addr: "remote_addr (RemoteAddressHeaders (opt logger_proxied)) req_foo (RemoteAddr req_foo) =
      ''12.34.56.78''"
    by (simp add: logger_proxied_def New_def Options_zero_def req_foo_def proxy_header_def)
  have st: "status (handler_of [CallWrite ''bar''] (newCustomResponseWriter recorder) req_foo) = 200"
    and sz: "size' (handler_of [CallWrite ''bar''] (newCustomResponseWriter recorder) req_foo) = 3"
    by (simp_all add: handler_of_def newCustomResponseWriter_def recorder_def Write_def rw_Write_def
        recorder_Write_def recorder_WriteHeader_def)
  have n200: "itoa (sint (200 :: go_int)) = ''200''" and n3: "itoa (sint (3 :: go_int)) = ''3''"
    by (simp_all add: itoa_def)
  from Handler_line_shape [OF a, of "handler_of [CallWrite ''bar'']" "''1ms''" recorder "[]"]
  show ?thesis
    unfolding addr st sz n200 n3 by (auto simp add: req_foo_def)
qed

text \<open>
  C3. For every request that is logged and every \<open>RemoteAddressHeaders\<close>: when no
  configured header has a non-empty value (as when none is configured), the address
  of the line is \<open>r.RemoteAddr\<close> as it is; when \<open>k\<close> is the first configured header with
  a non-empty value, the address is that value, whatever headers are configured after
  \<open>k\<close>, and a request that differs only in the values of other headers than those up
  to \<open>k\<close> gets the same address: the later ones are not looked at.
\<close>

theorem Handler_address:
  assumes "RequestURI r \<notin> set (IgnoredRequestURIs (opt l))"
  shows
    "((\<forall>k\<in>set (RemoteAddressHeaders (opt l)). Header_Get r k = []) \<longrightarrow>
        hd (pc_v (last (snd (Handler l next since w r sink)))) = ArgString (RemoteAddr r)) \<and>
     (\<forall>pre k post.
        RemoteAddressHeaders (opt l) = pre @ k # post \<and>
        (\<forall>k'\<in>set pre. Header_Get r k' = []) \<and> Header_Get r k \<noteq> [] \<longrightarrow>
        hd (pc_v (last (snd (Handler l next since w r sink)))) = ArgString (Header_Get r k) \<and>
        (\<forall>r'. RequestURI r' = RequestURI r \<and>
              (\<forall>k'\<in>set (pre @ [k]). Header_Get r' k' = Header_Get r k') \<longrightarrow>
           hd (pc_v (last (snd (Handler l next since w r' sink)))) =
           hd (pc_v (last (snd (Handler l next since w r sink))))))"
  using assms by (simp add: Handler_not_ignored remote_addr_none remote_addr_first)

text \<open>
  \<open>X-Real-IP\<close> alone, absent: the transport's address. \<open>X-Real-IP\<close>,
  \<open>X-Forwarded-Proto\<close>, \<open>Via\<close> with the second present: its value, also when \<open>Via\<close>
  has one.
\<close>

theorem Handler_address_witness:
  "hd (pc_v (last (snd (Handler logger_fallback (handler_of [CallWrite ''bar'']) ''1ms'' recorder
     req_foo [])))) = ArgString ''8.8.4.4'' \<and>
   hd (pc_v (last (snd (Handler logger_proxied (handler_of [CallWrite ''bar'']) ''1ms'' recorder
     req_foo [])))) = ArgString ''12.34.56.78'' \<and>
   hd (pc_v (last (snd (Handler logger_proxied (handler_of [CallWrite ''bar'']) ''1ms'' recorder
     (req_foo\<lparr>Header_Get := (\<lambda>key. if key = ''Via'' then ''1.1 proxy'' else proxy_header key)\<rparr>)
     [])))) = ArgString ''12.34.56.78''"
proof -
  have a: "RequestURI req_foo \<notin> set (IgnoredRequestURIs (opt logger_fallback))"
    and b: "RequestURI req_foo \<notin> set (IgnoredRequestURIs (opt logger_proxied))"
    by (simp_all add: logger_fallback_def logger_proxied_def New_def Options_zero_def)
  have none: "\<forall>k\<in>set (RemoteAddressHeaders (opt logger_fallback)). Header_Get req_foo k = []"
    by (simp add: logger_fallback_def New_def Options_zero_def req_foo_def proxy_header_def)
  have hs: "RemoteAddressHeaders (opt logger_proxied) =
      [''X-Real-IP''] @ ''X-Forwarded-Proto'' # [''Via'']"
    by (simp add: logger_proxied_def New_def Options_zero_def)
  have pre: "\<forall>k'\<in>set [''X-Real-IP'']. Header_Get req_foo k' = []"
    and k: "Header_Get req_foo ''X-Forwarded-Proto'' = ''12.34.56.78''"
    by (simp_all add: req_foo_def proxy_header_def)
  let ?r' = "req_foo\<lparr>Header_Get :=
      (\<lambda>key. if key = ''Via'' then ''1.1 proxy'' else proxy_header key)\<rparr>"
  have same: "RequestURI ?r' = RequestURI req_foo \<and>
      (\<forall>k'\<in>set ([''X-Real-IP''] @ [''X-Forwarded-Proto'']). Header_Get ?r' k' = Header_Get req_foo k')"
    by (simp add: req_foo_def)
  note first = Handler_address [OF a, of "handler_of [CallWrite ''bar'']" "''1ms''" recorder "[]",
      THEN conjunct1, THEN mp, OF none]
  note second = Handler_address [OF b, of "handler_of [CallWrite ''bar'']" "''1ms''" recorder "[]",
      THEN conjunct2, THEN spec, THEN spec, THEN spec, THEN mp,
      of "[''X-Real-IP'']" "''X-Forwarded-Proto''" "[''Via'']"]
  have prem: "RemoteAddressHeaders (opt logger_proxied) =
        [''X-Real-IP''] @ ''X-Forwarded-Proto'' # [''Via''] \<and>
      (\<forall>k'\<in>set [''X-Real-IP'']. Header_Get req_foo k' = []) \<and>
      Header_Get req_foo ''X-Forwarded-Proto'' \<noteq> []"
    using hs pre k by simp
  from second [OF prem] have
    s1: "hd (pc_v (last (snd (Handler logger_proxied (handler_of [CallWrite ''bar'']) ''1ms''
          recorder req_foo [])))) = ArgString (Header_Get req_foo ''X-Forwarded-Proto'')"
    and s2: "\<forall>r'. RequestURI r' = RequestURI req_foo \<and>
          (\<forall>k'\<in>set ([''X-Real-IP''] @ [''X-Forwarded-Proto'']).
              Header_Get r' k' = Header_Get req_foo k') \<longrightarrow>
          hd (pc_v (last (snd (Handler logger_proxied (handler_of [CallWrite ''bar'']) ''1ms''
            recorder r' [])))) =
          hd (pc_v (last (snd (Handler logger_proxied (handler_of [CallWrite ''bar'']) ''1ms''
            recorder req_foo []))))"
    by blast+
  from s2 [THEN spec, of ?r', THEN mp, OF same] s1 k first
  show ?thesis by (simp add: req_foo_def)
qed

section \<open>The observer: status and size\<close>

text \<open>
  C2, as the code has it. After \<open>newCustomResponseWriter\<close> and any calls of the
  observer's methods, \<open>status\<close> is 200 when \<open>WriteHeader\<close> was not among them, and
  otherwise the code of the last \<open>WriteHeader\<close> call: each call overwrites the
  field. With one call, that is the first call's code.
\<close>

theorem status_last_code:
  "status (snd (run_calls (newCustomResponseWriter w) cs)) =
     (if codes cs = [] then 200 else last (codes cs))"
  by (simp add: status_run_calls newCustomResponseWriter_def)

theorem status_last_code_witness:
  "status (snd (run_calls (newCustomResponseWriter recorder)
       [CallWrite ''bar'', CallFlush, CallHijack])) = 200 \<and>
   status (snd (run_calls (newCustomResponseWriter recorder)
       [CallWriteHeader 502, CallWrite ''Bad Gateway''])) = 502 \<and>
   status (snd (run_calls (newCustomResponseWriter recorder)
       [CallWriteHeader 404, CallWrite ''x'', CallWriteHeader 500])) = 500"
  using status_last_code [of recorder "[CallWrite ''bar'', CallFlush, CallHijack]"]
    status_last_code [of recorder "[CallWriteHeader 502, CallWrite ''Bad Gateway'']"]
    status_last_code [of recorder "[CallWriteHeader 404, CallWrite ''x'', CallWriteHeader 500]"]
  by simp

text \<open>
  C2 as the specification words it, the first call's code and never a later one,
  fails: after \<open>WriteHeader(404)\<close> and \<open>WriteHeader(500)\<close> the field holds 500, while
  the wrapped recorder has kept 404.
\<close>

theorem status_first_code_counterexample:
  "status (snd (run_calls (newCustomResponseWriter recorder)
       [CallWriteHeader 404, CallWriteHeader 500])) = 500 \<and>
   hd (codes [CallWriteHeader 404, CallWriteHeader 500]) = 404 \<and>
   status (snd (run_calls (newCustomResponseWriter recorder)
       [CallWriteHeader 404, CallWriteHeader 500])) \<noteq>
     hd (codes [CallWriteHeader 404, CallWriteHeader 500]) \<and>
   Code (rw_state (ResponseWriter (snd (run_calls (newCustomResponseWriter recorder)
       [CallWriteHeader 404, CallWriteHeader 500])))) = 404"
  by (simp add: newCustomResponseWriter_def recorder_def WriteHeader_def rw_WriteHeader_def
      recorder_WriteHeader_def)

text \<open>
  C4. Every \<open>Write\<close> returns the count and the error that the wrapped writer's
  \<open>Write\<close> returned for the same bytes. After \<open>newCustomResponseWriter\<close> and any
  sequence of \<open>Write\<close> calls, the results are those the wrapped writer gives for the
  sequence, and \<open>size\<close> is the sum of the counts among them, short counts included;
  with other calls of the observer in between, \<open>size\<close> is still the sum of the counts
  that the \<open>Write\<close> calls returned. The sum is the one Go computes, in \<open>int\<close>; it is
  the sum of the counts as integers as long as that fits an \<open>int\<close>.
\<close>

theorem Write_size_is_sum:
  "fst (Write c b) = fst (rw_Write (ResponseWriter c) b) \<and>
   fst (Writes (newCustomResponseWriter w) bs) = fst (rw_Writes w bs) \<and>
   size' (snd (Writes (newCustomResponseWriter w) bs)) = sum_list (map fst (fst (rw_Writes w bs))) \<and>
   size' (snd (run_calls (newCustomResponseWriter w) cs)) =
     sum_list (counts (fst (run_calls (newCustomResponseWriter w) cs))) \<and>
   (- (2 ^ 63) \<le> sum_list (map (sint \<circ> fst) (fst (rw_Writes w bs))) \<and>
    sum_list (map (sint \<circ> fst) (fst (rw_Writes w bs))) < 2 ^ 63 \<longrightarrow>
      sint (size' (snd (Writes (newCustomResponseWriter w) bs))) =
        sum_list (map (sint \<circ> fst) (fst (rw_Writes w bs))))"
proof -
  let ?c = "newCustomResponseWriter w"
  have rw: "ResponseWriter ?c = w" and z: "size' ?c = 0"
    by (simp_all add: newCustomResponseWriter_def)
  have sz: "size' (snd (Writes ?c bs)) = sum_list (map fst (fst (rw_Writes w bs)))"
    using Writes_sim [of ?c bs] by (simp add: rw z)
  have ex: "sint (size' (snd (Writes ?c bs))) = sum_list (map (sint \<circ> fst) (fst (rw_Writes w bs)))"
    if "- (2 ^ 63) \<le> sum_list (map (sint \<circ> fst) (fst (rw_Writes w bs)))"
      and "sum_list (map (sint \<circ> fst) (fst (rw_Writes w bs))) < 2 ^ 63"
    using sint_sum_list_exact [of "map fst (fst (rw_Writes w bs))"] that by (simp add: sz)
  have mixed: "size' (snd (run_calls ?c cs)) = sum_list (counts (fst (run_calls ?c cs)))"
    using size_run_calls [of ?c cs] by (simp add: z)
  show ?thesis
    using Writes_sim [of ?c bs] sz ex mixed by (simp add: rw Write_step)
qed

text \<open>Three writes to a writer that takes two bytes at most: 2 of 5, 1 of 1, 0 of 0.\<close>

theorem Write_size_is_sum_witness:
  "fst (Writes (newCustomResponseWriter short_writer) [''hello'', ''a'', []]) =
     [(2, Some (Error ''short write'')), (1, None), (0, None)] \<and>
   size' (snd (Writes (newCustomResponseWriter short_writer) [''hello'', ''a'', []])) = 3 \<and>
   size' (snd (run_calls (newCustomResponseWriter short_writer)
     [CallWrite ''hello'', CallWriteHeader 201, CallFlush, CallWrite ''a'', CallHijack])) = 3 \<and>
   sint (size' (snd (Writes (newCustomResponseWriter short_writer) [''hello'', ''a'', []]))) = 3"
proof -
  have u: "fst (rw_Writes short_writer [''hello'', ''a'', []]) =
      [(2, Some (Error ''short write'')), (1, None), (0, None)]"
    by (simp add: short_writer_def rw_Write_def)
  have v: "counts (fst (run_calls (newCustomResponseWriter short_writer)
      [CallWrite ''hello'', CallWriteHeader 201, CallFlush, CallWrite ''a'', CallHijack])) = [2, 1]"
    by (simp add: newCustomResponseWriter_def short_writer_def Write_def rw_Write_def
        WriteHeader_def rw_WriteHeader_def Flush_def Hijack_def)
  show ?thesis
    using Write_size_is_sum [of "newCustomResponseWriter short_writer" "''hello''" short_writer
        "[''hello'', ''a'', []]"
        "[CallWrite ''hello'', CallWriteHeader 201, CallFlush, CallWrite ''a'', CallHijack]"]
    by (simp add: u v del: Writes.simps rw_Writes.simps run_calls.simps)
qed

end
